theory Spec2Isabelle
  imports Complex_Main "HOL-Library.Char_ord" "HOL-Library.List_Lexorder" "HOL-Library.AList"
begin

section \<open>Exceptions\<close>

text \<open>
  The Python exceptions the modelled functions raise or let through.
  \<open>KeyboardInterrupt\<close> and \<open>SystemExit\<close> derive from \<open>BaseException\<close> only, so
  an \<open>except Exception\<close> clause does not catch them; every other constructor is a
  subclass of \<open>Exception\<close>. \<open>JobError\<close> stands for any \<open>Exception\<close> a job or a
  callback raises.
\<close>

datatype exn =
    KeyboardInterrupt
  | SystemExit
  | TypeError
  | KeyError string
  | AssertionError
  | JobError string

fun is_Exception :: "exn \<Rightarrow> bool" where
  "is_Exception KeyboardInterrupt = False"
| "is_Exception SystemExit = False"
| "is_Exception _ = True"

section \<open>The job batch executor: \<open>watch_jobs\<close>\<close>

text \<open>
  \<open>job.get()\<close> blocks until the dispatched job is resolved and either returns its
  result or raises; the outcome is the input of the executor.
\<close>

datatype 'r job = Returns 'r | Raises exn

text \<open>
  What the executor does to its surroundings, in the order it does it. The number is
  \<open>jobs_complete\<close> at that moment, which is the position of the job in the batch.
\<close>

datatype 'r event =
    Awaited nat
  | OnSuccess nat 'r
  | Captured nat exn
  | OnError nat exn
  | OnProgress nat rat

text \<open>
  A callback closes over state of its caller (\<open>nonlocal\<close>), here \<open>'s\<close>. It returns the
  state it leaves behind and the exception it raised, if any. A parameter left at its
  default \<open>None\<close> is \<open>None\<close> here. \<open>raven_client\<close> is tested for truth only.
\<close>

record ('r, 's) callbacks =
  on_success :: "('r \<Rightarrow> 's \<Rightarrow> 's \<times> exn option) option"
  on_error :: "(exn \<Rightarrow> 's \<Rightarrow> 's \<times> exn option) option"
  on_progress :: "(nat \<Rightarrow> rat \<Rightarrow> 's \<Rightarrow> 's \<times> exn option) option"
  raven_client :: bool
  progress_seconds :: rat

text \<open>
  The local variables of the loop. \<open>reads\<close> counts the evaluations of
  \<open>timer.elapsed\<close> so far: the wall clock is a function from that count to seconds
  (times are rationals, the float arithmetic idealised).
\<close>

record ('r, 's) watch_state =
  last_elapsed :: rat
  jobs_complete :: nat
  reads :: nat
  user :: 's
  events :: "'r event list"

definition emit :: "'r event \<Rightarrow> ('r, 's) watch_state \<Rightarrow> ('r, 's) watch_state" where
  "emit ev st = st\<lparr>events := events st @ [ev]\<rparr>"

text \<open>Lines 276 to 279: the progress report before waiting on the next job.\<close>

definition progress_tick ::
  "('r, 's) callbacks \<Rightarrow> (nat \<Rightarrow> rat) \<Rightarrow> nat \<Rightarrow> ('r, 's) watch_state
     \<Rightarrow> ('r, 's) watch_state \<times> exn option" where
  "progress_tick cb elapsed total_jobs st =
     (let now = elapsed (reads st);
          st1 = st\<lparr>reads := reads st + 1\<rparr>
      in if now > last_elapsed st1 + progress_seconds cb then
           (let job_percent = of_nat (jobs_complete st1) / of_nat total_jobs
            in case on_progress cb of
                 None \<Rightarrow> (st1, Some TypeError)
               | Some f \<Rightarrow>
                   (let st2 = emit (OnProgress (jobs_complete st1) job_percent) st1
                    in case f (jobs_complete st1) job_percent (user st2) of
                         (u, Some e) \<Rightarrow> (st2\<lparr>user := u\<rparr>, Some e)
                       | (u, None) \<Rightarrow>
                           (st2\<lparr>user := u, last_elapsed := elapsed (reads st2),
                                 reads := reads st2 + 1\<rparr>, None)))
         else (st1, None))"

text \<open>Lines 282 to 284: the body of the \<open>try\<close>.\<close>

definition try_get ::
  "('r, 's) callbacks \<Rightarrow> 'r job \<Rightarrow> ('r, 's) watch_state
     \<Rightarrow> ('r, 's) watch_state \<times> exn option" where
  "try_get cb job st =
     (let st1 = emit (Awaited (jobs_complete st)) st
      in case job of
           Raises e \<Rightarrow> (st1, Some e)
         | Returns job_resp \<Rightarrow>
             (case on_success cb of
                None \<Rightarrow> (st1, None)
              | Some f \<Rightarrow>
                  (let st2 = emit (OnSuccess (jobs_complete st1) job_resp) st1
                   in case f job_resp (user st2) of
                        (u, exc) \<Rightarrow> (st2\<lparr>user := u\<rparr>, exc))))"

text \<open>Lines 288 to 294: the \<open>except Exception\<close> clause.\<close>

definition except_Exception ::
  "('r, 's) callbacks \<Rightarrow> exn \<Rightarrow> ('r, 's) watch_state
     \<Rightarrow> ('r, 's) watch_state \<times> exn option" where
  "except_Exception cb e st =
     (let st1 = (if raven_client cb then emit (Captured (jobs_complete st) e) st else st)
      in case on_error cb of
           Some h \<Rightarrow>
             (let st2 = emit (OnError (jobs_complete st1) e) st1
              in case h e (user st2) of (u, exc) \<Rightarrow> (st2\<lparr>user := u\<rparr>, exc))
         | None \<Rightarrow> (st1, Some e))"

text \<open>Lines 281 to 294: the \<open>try\<close> statement, clause by clause.\<close>

definition await_job ::
  "('r, 's) callbacks \<Rightarrow> 'r job \<Rightarrow> ('r, 's) watch_state
     \<Rightarrow> ('r, 's) watch_state \<times> exn option" where
  "await_job cb job st =
     (case try_get cb job st of
        (st1, None) \<Rightarrow> (st1, None)
      | (st1, Some e) \<Rightarrow>
          if e = KeyboardInterrupt then (st1, Some e)
          else if is_Exception e then except_Exception cb e st1
          else (st1, Some e))"

text \<open>
  Lines 275 to 295: the loop. The second component of the result is the exception that
  left the loop, \<open>None\<close> when the loop ran to its end.
\<close>

fun watch_loop ::
  "('r, 's) callbacks \<Rightarrow> (nat \<Rightarrow> rat) \<Rightarrow> nat \<Rightarrow> 'r job list \<Rightarrow> ('r, 's) watch_state
     \<Rightarrow> ('r, 's) watch_state \<times> exn option" where
  "watch_loop cb elapsed total_jobs [] st = (st, None)"
| "watch_loop cb elapsed total_jobs (job # jobs) st =
     (case progress_tick cb elapsed total_jobs st of
        (st1, Some e) \<Rightarrow> (st1, Some e)
      | (st1, None) \<Rightarrow>
          (case await_job cb job st1 of
             (st2, Some e) \<Rightarrow> (st2, Some e)
           | (st2, None) \<Rightarrow>
               watch_loop cb elapsed total_jobs jobs
                 (st2\<lparr>jobs_complete := jobs_complete st2 + 1\<rparr>)))"

definition watch_jobs ::
  "('r, 's) callbacks \<Rightarrow> (nat \<Rightarrow> rat) \<Rightarrow> 'r job list \<Rightarrow> 's
     \<Rightarrow> ('r, 's) watch_state \<times> exn option" where
  "watch_jobs cb elapsed jobs u =
     watch_loop cb elapsed (length jobs) jobs
       \<lparr>last_elapsed = 0, jobs_complete = 0, reads = 0, user = u, events = []\<rparr>"





text \<open>The job an event is about; a progress report is about none.\<close>

fun about :: "'r event \<Rightarrow> nat option" where
  "about (Awaited i) = Some i"
| "about (OnSuccess i r) = Some i"
| "about (Captured i e) = Some i"
| "about (OnError i e) = Some i"
| "about (OnProgress n q) = None"







text \<open>A batch of ten jobs of which the fourth fails, and callbacks that count.\<close>

definition tally :: "nat \<Rightarrow> nat \<Rightarrow> nat \<times> exn option" where
  "tally r s = (s + r, None)"

definition note_error :: "exn \<Rightarrow> nat \<Rightarrow> nat \<times> exn option" where
  "note_error e s = (s + 1000, None)"

definition log_progress :: "nat \<Rightarrow> rat \<Rightarrow> nat \<Rightarrow> nat \<times> exn option" where
  "log_progress n q s = (s, None)"

definition abort_callbacks :: "(nat, nat) callbacks" where
  "abort_callbacks = \<lparr>on_success = Some tally, on_error = None,
      on_progress = Some log_progress, raven_client = True, progress_seconds = 5\<rparr>"


definition isolate_callbacks :: "(nat, nat) callbacks" where
  "isolate_callbacks = abort_callbacks\<lparr>on_error := Some note_error\<rparr>"



text \<open>Every callback left at its default, and the default progress interval.\<close>

definition no_callbacks :: "(nat, unit) callbacks" where
  "no_callbacks = \<lparr>on_success = None, on_error = None, on_progress = None,
                    raven_client = False, progress_seconds = 5\<rparr>"

section \<open>The sync plan: \<open>get_sync_actions\<close>\<close>

text \<open>
  An entry yielded by \<open>get_png_entries\<close>: its path, the size \<open>stat()\<close> reports and the
  bytes \<open>read()\<close> returns. The remote inventory is the dictionary built by
  \<open>get_current_objects\<close>, name to (size, md5), in insertion order; \<open>map_of\<close> is its lookup
  and the first components are its keys.
\<close>

record png_entry =
  path :: string
  st_size :: nat
  content :: string

type_synonym inventory = "(string \<times> nat \<times> string) list"

text \<open>\<open>png.path[len(tiles_dir):].lstrip("/")\<close>\<close>

definition obj_name_of :: "string \<Rightarrow> png_entry \<Rightarrow> string" where
  "obj_name_of tiles_dir png =
     dropWhile (\<lambda>c. c = CHR ''/'') (drop (length tiles_dir) (path png))"

text \<open>
  The local variables of the loop; \<open>hashed\<close> lists the paths opened and read for
  hashing, in order.
\<close>

record sync_state =
  actions_upload :: "string list"
  actions_update :: "string list"
  unchanged_count :: nat
  remaining_objects :: "string set"
  hashed :: "string list"

text \<open>Lines 779 to 799: the body of the loop. \<open>md5\<close> is \<open>hashlib.md5(...).hexdigest()\<close>.\<close>

definition sync_step ::
  "(string \<Rightarrow> string) \<Rightarrow> string \<Rightarrow> inventory \<Rightarrow> png_entry \<Rightarrow> sync_state
     \<Rightarrow> exn + sync_state" where
  "sync_step md5 tiles_dir objects png st =
     (let obj_name = obj_name_of tiles_dir png in
      if obj_name \<in> remaining_objects st then
        (let st1 = st\<lparr>remaining_objects := remaining_objects st - {obj_name}\<rparr> in
         case map_of objects obj_name of
           None \<Rightarrow> Inl (KeyError obj_name)
         | Some (obj_size, obj_md5) \<Rightarrow>
             (let local_size = st_size png in
              if local_size = obj_size then
                (let st2 = st1\<lparr>hashed := hashed st1 @ [path png]\<rparr>;
                     local_md5 = md5 (content png)
                 in if local_md5 = obj_md5
                    then Inr (st2\<lparr>unchanged_count := unchanged_count st2 + 1\<rparr>)
                    else Inr (st2\<lparr>actions_update := actions_update st2 @ [obj_name]\<rparr>))
              else Inr (st1\<lparr>actions_update := actions_update st1 @ [obj_name]\<rparr>)))
      else Inr (st\<lparr>actions_upload := actions_upload st @ [obj_name]\<rparr>))"

fun sync_loop ::
  "(string \<Rightarrow> string) \<Rightarrow> string \<Rightarrow> inventory \<Rightarrow> png_entry list \<Rightarrow> sync_state
     \<Rightarrow> exn + sync_state" where
  "sync_loop md5 tiles_dir objects [] st = Inr st"
| "sync_loop md5 tiles_dir objects (png # pngs) st =
     (case sync_step md5 tiles_dir objects png st of
        Inl e \<Rightarrow> Inl e
      | Inr st1 \<Rightarrow> sync_loop md5 tiles_dir objects pngs st1)"

record sync_actions =
  to_upload :: "string list"
  to_update :: "string list"
  to_delete :: "string list"

text \<open>
  \<open>get_sync_actions\<close> returns the actions and the unchanged count; the third component
  here is what it read from disk on the way. \<open>sorted\<close> orders strings by code point,
  which on byte strings is the lexicographic order of lists of characters.
\<close>

definition get_sync_actions ::
  "(string \<Rightarrow> string) \<Rightarrow> string \<Rightarrow> inventory \<Rightarrow> png_entry list
     \<Rightarrow> exn + (sync_actions \<times> nat \<times> string list)" where
  "get_sync_actions md5 tiles_dir objects pngs =
     (case sync_loop md5 tiles_dir objects pngs
             \<lparr>actions_upload = [], actions_update = [], unchanged_count = 0,
              remaining_objects = set (map fst objects), hashed = []\<rparr> of
        Inl e \<Rightarrow> Inl e
      | Inr st \<Rightarrow>
          Inr (\<lparr>to_upload = actions_upload st, to_update = actions_update st,
                to_delete = sorted_list_of_set (remaining_objects st)\<rparr>,
               unchanged_count st, hashed st))"

text \<open>
  The classification of section 4.4 of the specification, step 3, in its words: not
  present in the remote inventory, Upload; present with another size, Update; sizes equal
  and another hash, Update; else Unchanged.
\<close>

datatype classification = Upload | Update | Unchanged

definition classify ::
  "(string \<Rightarrow> string) \<Rightarrow> string \<Rightarrow> inventory \<Rightarrow> png_entry \<Rightarrow> classification" where
  "classify md5 tiles_dir objects png =
     (case map_of objects (obj_name_of tiles_dir png) of
        None \<Rightarrow> Upload
      | Some (obj_size, obj_md5) \<Rightarrow>
          if st_size png \<noteq> obj_size then Update
          else if md5 (content png) \<noteq> obj_md5 then Update
          else Unchanged)"

text \<open>The files whose content the classification has to read: present, sizes equal.\<close>

definition same_size :: "string \<Rightarrow> inventory \<Rightarrow> png_entry \<Rightarrow> bool" where
  "same_size tiles_dir objects png =
     (case map_of objects (obj_name_of tiles_dir png) of
        None \<Rightarrow> False
      | Some (obj_size, obj_md5) \<Rightarrow> st_size png = obj_size)"

text \<open>The inventory a fully successful sync of the local files leaves behind.\<close>

definition synced_inventory ::
  "(string \<Rightarrow> string) \<Rightarrow> string \<Rightarrow> png_entry list \<Rightarrow> inventory" where
  "synced_inventory md5 tiles_dir pngs =
     map (\<lambda>png. (obj_name_of tiles_dir png, st_size png, md5 (content png))) pngs"

text \<open>
  The example of the specification: remote \<open>A\<close> and \<open>B\<close>, local \<open>A\<close> (unchanged) and
  \<open>C\<close> (new); a digest under which the content of \<open>A\<close> hashes to \<open>h1\<close>; and the local
  files with \<open>A\<close> grown to twelve bytes.
\<close>

definition two_hashes :: "string \<Rightarrow> string" where
  "two_hashes c = (if c = ''aaaaaaaaaa'' then ''h1'' else ''h3'')"

definition remote_AB :: inventory where
  "remote_AB = [(''A'', 10, ''h1''), (''B'', 20, ''h2'')]"

definition local_AC :: "png_entry list" where
  "local_AC = [\<lparr>path = ''tiles/A'', st_size = 10, content = ''aaaaaaaaaa''\<rparr>,
               \<lparr>path = ''tiles/C'', st_size = 5, content = ''ccccc''\<rparr>]"

definition local_A_resized :: "png_entry list" where
  "local_A_resized = [\<lparr>path = ''tiles/A'', st_size = 12, content = ''aaaaaaaaaaaa''\<rparr>,
                      \<lparr>path = ''tiles/C'', st_size = 5, content = ''ccccc''\<rparr>]"

section \<open>Shard export and file rotation: \<open>export_to_csv\<close>\<close>

text \<open>
  The names the function writes to: \<open>Orig\<close> is \<open>filename\<close> as passed in, \<open>Numbered n\<close> is
  \<open>"sub" + orig_filename.replace(".csv", f"_{n:04}.csv")\<close>. The directory \<open>csv_dir\<close> is an
  association list from names to the number of lines in the file.
\<close>

datatype csv_name = Orig | Numbered nat

type_synonym csv_dir = "(csv_name \<times> nat) list"

text \<open>\<open>open(path, "w")\<close> creates the file or truncates it.\<close>

definition open_w :: "csv_name \<Rightarrow> csv_dir \<Rightarrow> csv_dir" where
  "open_w name dir = AList.update name 0 dir"

definition writelines :: "csv_name \<Rightarrow> nat \<Rightarrow> csv_dir \<Rightarrow> csv_dir" where
  "writelines name n dir =
     (case map_of dir name of
        None \<Rightarrow> dir
      | Some k \<Rightarrow> AList.update name (k + n) dir)"

definition os_remove :: "csv_name \<Rightarrow> csv_dir \<Rightarrow> csv_dir" where
  "os_remove name dir = AList.delete name dir"

text \<open>\<open>os.rename\<close> replaces an existing target.\<close>

definition os_rename :: "csv_name \<Rightarrow> csv_name \<Rightarrow> csv_dir \<Rightarrow> csv_dir" where
  "os_rename src dst dir =
     (case map_of dir src of
        None \<Rightarrow> dir
      | Some k \<Rightarrow> AList.update dst k (AList.delete src dir))"

record export_state =
  result_rows :: nat
  file_count :: nat
  file_rows :: nat
  filename :: csv_name
  dir :: csv_dir

text \<open>
  Lines 559 to 572, for one fetched page of rows that expands to \<open>n\<close> lines
  (\<open>n = len(lines)\<close>): write, count, rotate.
\<close>

definition export_page :: "nat \<Rightarrow> nat \<Rightarrow> export_state \<Rightarrow> export_state" where
  "export_page file_limit n st =
     (let st1 = st\<lparr>dir := writelines (filename st) n (dir st),
                    result_rows := result_rows st + n\<rparr>;
          st2 = st1\<lparr>file_rows := file_rows st1 + n\<rparr>
      in if result_rows st2 \<ge> file_limit then
           (let st3 = st2\<lparr>file_count := file_count st2 + 1, file_rows := 0\<rparr>;
                st4 = st3\<lparr>filename := Numbered (file_count st3)\<rparr>
            in st4\<lparr>dir := open_w (filename st4) (dir st4)\<rparr>)
         else st2)"

text \<open>
  The \<open>while True\<close> loop over the pages the data source returns; the list holds the line
  counts of the non-empty pages, and the loop leaves at the empty page that follows them.
\<close>

fun export_pages :: "nat \<Rightarrow> nat list \<Rightarrow> export_state \<Rightarrow> export_state" where
  "export_pages file_limit [] st = st"
| "export_pages file_limit (n # pages) st =
     export_pages file_limit pages (export_page file_limit n st)"

text \<open>Lines 578 to 586: drop an empty last file, rename the first one after a rotation.\<close>

definition export_finish :: "export_state \<Rightarrow> export_state" where
  "export_finish st =
     (let st1 = (if file_rows st = 0
                 then st\<lparr>dir := os_remove (filename st) (dir st),
                         file_count := file_count st - 1\<rparr>
                 else st)
      in if file_count st1 > 1
         then st1\<lparr>filename := Numbered 1, dir := os_rename Orig (Numbered 1) (dir st1)\<rparr>
         else st1)"

text \<open>
  \<open>export_to_csv\<close>: \<open>file_limit or 10_000_000\<close> takes the default for \<open>None\<close> and for 0.
  The result is the returned pair and the directory left behind.
\<close>

definition export_to_csv :: "nat option \<Rightarrow> nat list \<Rightarrow> csv_dir \<Rightarrow> nat \<times> nat \<times> csv_dir" where
  "export_to_csv file_limit pages dir0 =
     (let limit = (case file_limit of None \<Rightarrow> 10000000
                   | Some l \<Rightarrow> if l = 0 then 10000000 else l);
          st0 = \<lparr>result_rows = 0, file_count = 1, file_rows = 0, filename = Orig,
                 dir = open_w Orig dir0\<rparr>;
          st = export_finish (export_pages limit pages st0)
      in (result_rows st, file_count st, dir st))"

text \<open>Twenty-five pages of a million lines each, and ten.\<close>

definition pages_25M :: "nat list" where
  "pages_25M = replicate 25 1000000"

definition pages_10M :: "nat list" where
  "pages_10M = replicate 10 1000000"

section \<open>The remote inventory: \<open>get_current_objects\<close>\<close>

text \<open>
  The part of a \<open>list_objects_v2\<close> response the function reads. A response to a listing
  that matches no key has no \<open>Contents\<close> entry, and only a truncated response has a
  \<open>NextContinuationToken\<close>: both are optional here, and reading an absent one is the
  \<open>KeyError\<close> of the dictionary lookup.
\<close>

record s3_metadata =
  Key :: string
  ETag :: string
  Size :: nat

record list_response =
  Contents :: "s3_metadata list option"
  IsTruncated :: bool
  NextContinuationToken :: "string option"

definition endswith :: "string \<Rightarrow> string \<Rightarrow> bool" where
  "endswith s suffix =
     (length suffix \<le> length s \<and> drop (length s - length suffix) s = suffix)"

text \<open>\<open>s.strip('"')\<close>\<close>

definition strip_quotes :: "string \<Rightarrow> string" where
  "strip_quotes s =
     rev (dropWhile (\<lambda>c. c = CHR 0x22) (rev (dropWhile (\<lambda>c. c = CHR 0x22) s)))"

text \<open>Lines 752 to 757: one entry of a page.\<close>

definition add_object :: "string \<Rightarrow> s3_metadata \<Rightarrow> inventory \<Rightarrow> inventory" where
  "add_object bucket_prefix metadata objects =
     (let key = Key metadata in
      if endswith key ''.png'' then
        (let name = drop (length bucket_prefix) key;
             md5 = strip_quotes (ETag metadata);
             sz = Size metadata
         in AList.update name (sz, md5) objects)
      else objects)"

text \<open>
  Lines 746 to 763: the loop, which runs for as long as the store answers with truncated
  pages; \<open>None\<close> is a run that never ends. The first argument is the client's
  \<open>list_objects_v2\<close> for the bucket and prefix, as a function of the continuation token.
\<close>

partial_function (option) fetch_objects ::
  "(string option \<Rightarrow> list_response) \<Rightarrow> string \<Rightarrow> inventory \<Rightarrow> string option
     \<Rightarrow> (exn + inventory) option" where
  "fetch_objects list_objects_v2 bucket_prefix objects next_kwargs =
     (let response = list_objects_v2 next_kwargs in
      case Contents response of
        None \<Rightarrow> Some (Inl (KeyError ''Contents''))
      | Some contents \<Rightarrow>
          (let objects1 = fold (add_object bucket_prefix) contents objects in
           if IsTruncated response then
             (case NextContinuationToken response of
                None \<Rightarrow> Some (Inl (KeyError ''NextContinuationToken''))
              | Some token \<Rightarrow> fetch_objects list_objects_v2 bucket_prefix objects1 (Some token))
           else Some (Inr objects1)))"

definition get_current_objects ::
  "(string option \<Rightarrow> list_response) \<Rightarrow> string \<Rightarrow> (exn + inventory) option" where
  "get_current_objects list_objects_v2 bucket_prefix =
     fetch_objects list_objects_v2 bucket_prefix [] None"

text \<open>
  \<open>get_sync_plan\<close>, lines 395 to 421: fetch the inventory, then plan against the local
  tiles. An exception of the fetch leaves before \<open>get_sync_actions\<close> is called.
\<close>

definition get_sync_plan ::
  "(string option \<Rightarrow> list_response) \<Rightarrow> (string \<Rightarrow> string) \<Rightarrow> string \<Rightarrow> string
     \<Rightarrow> png_entry list \<Rightarrow> (exn + (sync_actions \<times> nat)) option" where
  "get_sync_plan list_objects_v2 md5 tiles_dir bucket_prefix pngs =
     (case get_current_objects list_objects_v2 bucket_prefix of
        None \<Rightarrow> None
      | Some (Inl e) \<Rightarrow> Some (Inl e)
      | Some (Inr objects) \<Rightarrow>
          (case get_sync_actions md5 tiles_dir objects pngs of
             Inl e \<Rightarrow> Some (Inl e)
           | Inr (actions, unchanged, opened) \<Rightarrow> Some (Inr (actions, unchanged))))"

text \<open>The answer of the store for a prefix under which there is no object.\<close>

definition empty_listing :: "string option \<Rightarrow> list_response" where
  "empty_listing token =
     \<lparr>Contents = None, IsTruncated = False, NextContinuationToken = None\<rparr>"

text \<open>A store with two pages: a tile and a status file, then one more tile.\<close>

definition two_pages :: "string option \<Rightarrow> list_response" where
  "two_pages token =
     (if token = None then
        \<lparr>Contents = Some [\<lparr>Key = ''tiles/0/0/0.png'', ETag = [CHR 0x22] @ ''h1'' @ [CHR 0x22], Size = 10\<rparr>,
                          \<lparr>Key = ''tiles/data.json'', ETag = [CHR 0x22] @ ''h0'' @ [CHR 0x22], Size = 99\<rparr>],
         IsTruncated = True, NextContinuationToken = Some ''t1''\<rparr>
      else if token = Some ''t1'' then
        \<lparr>Contents = Some [\<lparr>Key = ''tiles/1/0/0.png'', ETag = [CHR 0x22] @ ''h2'' @ [CHR 0x22], Size = 20\<rparr>],
         IsTruncated = False, NextContinuationToken = None\<rparr>
      else \<lparr>Contents = None, IsTruncated = False, NextContinuationToken = None\<rparr>)"

section \<open>Merging quadtrees: \<open>merge_quadtrees\<close> and its two callers\<close>

text \<open>
  A quadtree artifact is the sequence of points it holds; the quadtree directory tree is
  an association list from paths to artifacts. \<open>os.path.join\<close> of a directory and a
  relative name puts a slash between them.
\<close>

type_synonym point = string

type_synonym quadtrees = "(string \<times> point list) list"

definition path_join :: "string \<Rightarrow> string \<Rightarrow> string" where
  "path_join d name = d @ ''/'' @ name"

text \<open>
  \<open>glob.glob(os.path.join(quadtree_dir, pattern))\<close> for the two patterns in use, a literal
  prefix followed by \<open>*\<close>: the entries of the directory whose name starts with the prefix.
\<close>

definition glob_glob :: "quadtrees \<Rightarrow> string \<Rightarrow> string \<Rightarrow> string list" where
  "glob_glob fs quadtree_dir pattern =
     (let stem = path_join quadtree_dir (butlast pattern) in
      filter (\<lambda>p. take (length stem) p = stem \<and> CHR ''/'' \<notin> set (drop (length stem) p))
        (map fst fs))"

text \<open>
  Lines 365 to 371: the command \<open>merge_quadtrees\<close> hands to \<open>subprocess.run\<close>, or the
  failure of its assertion.
\<close>

definition merge_quadtrees ::
  "quadtrees \<Rightarrow> string \<Rightarrow> string \<Rightarrow> bool \<Rightarrow> string \<Rightarrow> exn + string list" where
  "merge_quadtrees fs quadtree_dir shapes_dir remove_duplicates pattern =
     (let quadtree_files = glob_glob fs quadtree_dir pattern in
      if quadtree_files = [] then Inl AssertionError
      else
        (let cmd = [''merge''];
             cmd = (if remove_duplicates then cmd @ [''-u''] else cmd);
             cmd = cmd @ [''-o'', shapes_dir];
             cmd = cmd @ quadtree_files
         in Inr cmd))"

text \<open>
  Lines 341 to 351 of \<open>csv_to_quadtrees\<close>: the merge queued for a shard with intermediate
  quadtrees, with the keyword arguments it passes.
\<close>

definition merge_intermediate :: "quadtrees \<Rightarrow> string \<Rightarrow> string \<Rightarrow> exn + string list" where
  "merge_intermediate fs quadtree_dir shard =
     (let submap_dir = path_join quadtree_dir (''submap_'' @ shard);
          map_dir = path_join quadtree_dir (''map_'' @ shard)
      in merge_quadtrees fs submap_dir map_dir False ''submap*'')"

text \<open>Line 153 of \<open>generate\<close>: the global merge, with the defaults of the signature.\<close>

definition merge_global :: "quadtrees \<Rightarrow> string \<Rightarrow> string \<Rightarrow> exn + string list" where
  "merge_global fs quadtree_dir shapes_dir =
     merge_quadtrees fs quadtree_dir shapes_dir True ''map*''"

text \<open>
  Modelled from the spec: the external \<open>merge\<close> tool, which is not part of the repository.
  Section 6 of the specification gives its contract: \<open>merge [-u] -o <out> <inputs...>\<close>,
  where \<open>-u\<close> removes duplicates. The result is the artifact written to \<open>out\<close>: the points
  of the inputs in order, each kept once under \<open>-u\<close>; \<open>None\<close> for any other command line.
\<close>

definition read_quadtree :: "quadtrees \<Rightarrow> string \<Rightarrow> point list" where
  "read_quadtree fs p = (case map_of fs p of None \<Rightarrow> [] | Some points \<Rightarrow> points)"

fun merge_tool :: "quadtrees \<Rightarrow> string list \<Rightarrow> (string \<times> point list) option" where
  "merge_tool fs (prog # a # b # rest) =
     (if prog = ''merge'' \<and> a = ''-u'' \<and> b = ''-o'' then
        (case rest of
           [] \<Rightarrow> None
         | out # inputs \<Rightarrow> Some (out, remdups (concat (map (read_quadtree fs) inputs))))
      else if prog = ''merge'' \<and> a = ''-o'' then
        Some (b, concat (map (read_quadtree fs) rest))
      else None)"
| "merge_tool fs _ = None"

text \<open>Running a command the function built, and storing what the tool wrote.\<close>

definition run_merge :: "quadtrees \<Rightarrow> exn + string list \<Rightarrow> quadtrees option" where
  "run_merge fs cmd =
     (case cmd of
        Inl e \<Rightarrow> None
      | Inr c \<Rightarrow>
          (case merge_tool fs c of
             None \<Rightarrow> None
           | Some (out, points) \<Rightarrow> Some (AList.update out points fs)))"

text \<open>
  Two shards: \<open>ne\<close>, exported in two segments that both hold the point \<open>p\<close>, and \<open>sw\<close>,
  exported in one, which shares the point \<open>q\<close> with \<open>ne\<close>.
\<close>

definition two_shards :: quadtrees where
  "two_shards =
     [(''qt/submap_ne/submap_ne_0001'', [''p'']),
      (''qt/submap_ne/submap_ne_0002'', [''p'', ''q'']),
      (''qt/map_sw'', [''q'', ''r''])]"

section \<open>The orchestrator: \<open>generate\<close>\<close>

text \<open>
  The stages \<open>generate\<close> calls act on the local output directory (\<open>'l\<close>) and on the remote
  store (\<open>'r\<close>); what they do there is theirs, the order and the conditions are
  \<open>generate\<close>'s. A stage returns the state it leaves and its value or its exception, and,
  where \<open>generate\<close> times it, the \<open>duration_s\<close> its \<open>Timer\<close> shows.
\<close>

datatype stage = Export | Quadtrees | Merge | Render | SyncPlan | SyncTiles | StatusFile

datatype work_dir = OutputDir | CsvDir | QuadtreeDir | ShapesDir

datatype summary_value = Seconds rat | Count nat

type_synonym summary = "(string \<times> summary_value) list"

record ('l, 'r) stages =
  ensure_dir :: "work_dir \<Rightarrow> 'l \<Rightarrow> 'l"
  rmtree_if_dir :: "work_dir \<Rightarrow> 'l \<Rightarrow> 'l"
  mkdir :: "work_dir \<Rightarrow> 'l \<Rightarrow> 'l"
  export_to_csvs :: "'l \<Rightarrow> 'l \<times> (exn + (nat \<times> nat) \<times> rat)"
  csv_to_quadtrees :: "'l \<Rightarrow> 'l \<times> (exn + (nat \<times> nat \<times> nat) \<times> rat)"
  merge_stage :: "'l \<Rightarrow> 'l \<times> (exn + rat)"
  render_tiles :: "'l \<Rightarrow> 'l \<times> (exn + nat \<times> rat)"
  sync_plan_stage :: "'l \<Rightarrow> 'r \<Rightarrow> exn + sync_actions \<times> nat"
  sync_tiles :: "sync_actions \<Rightarrow> 'l \<Rightarrow> 'r \<Rightarrow> 'r \<times> (exn + summary \<times> rat)"
  upload_status_file :: "summary \<Rightarrow> 'r \<Rightarrow> 'r \<times> exn option"

text \<open>\<open>result.update(sync_counts)\<close>\<close>

definition dict_update :: "summary \<Rightarrow> summary \<Rightarrow> summary" where
  "dict_update result other = fold (\<lambda>(k, v). AList.update k v) other result"

text \<open>
  Lines 107 to 165, the \<open>create\<close> branch: the stages that ran, the local state, and the
  summary so far, with \<open>True\<close> when line 127 returned it.
\<close>

definition create_phase ::
  "('l, 'r) stages \<Rightarrow> 'l \<Rightarrow> stage list \<times> 'l \<times> (exn + summary \<times> bool)" where
  "create_phase S l0 =
     (case export_to_csvs S (ensure_dir S CsvDir l0) of
        (l1, Inl e) \<Rightarrow> ([Export], l1, Inl e)
      | (l1, Inr ((row_count, csv_count), export_s)) \<Rightarrow>
          (let result = [(''export_duration_s'', Seconds export_s),
                         (''row_count'', Count row_count),
                         (''csv_count'', Count csv_count)]
           in if row_count = 0 then ([Export], l1, Inr (result, True))
              else
                (case csv_to_quadtrees S (mkdir S QuadtreeDir (rmtree_if_dir S QuadtreeDir l1)) of
                   (l2, Inl e) \<Rightarrow> ([Export, Quadtrees], l2, Inl e)
                 | (l2, Inr ((csv_converted, intermediate, final), quadtree_s)) \<Rightarrow>
                     (let result = result @
                            [(''quadtree_duration_s'', Seconds quadtree_s),
                             (''csv_converted_count'', Count csv_converted),
                             (''intermediate_quadtree_count'', Count intermediate),
                             (''quadtree_count'', Count final)]
                      in case merge_stage S (rmtree_if_dir S ShapesDir l2) of
                           (l3, Inl e) \<Rightarrow> ([Export, Quadtrees, Merge], l3, Inl e)
                         | (l3, Inr merge_s) \<Rightarrow>
                             (let result = result @ [(''merge_duration_s'', Seconds merge_s)]
                              in case render_tiles S l3 of
                                   (l4, Inl e) \<Rightarrow> ([Export, Quadtrees, Merge, Render], l4, Inl e)
                                 | (l4, Inr (tile_count, render_s)) \<Rightarrow>
                                     ([Export, Quadtrees, Merge, Render], l4,
                                      Inr (result @ [(''tile_count'', Count tile_count),
                                                     (''render_duration_s'', Seconds render_s)],
                                           False)))))))"

text \<open>Lines 167 to 196, the \<open>upload\<close> branch.\<close>

definition upload_phase ::
  "('l, 'r) stages \<Rightarrow> summary \<Rightarrow> 'l \<Rightarrow> 'r \<Rightarrow> stage list \<times> 'r \<times> (exn + summary)" where
  "upload_phase S result l r =
     (case sync_plan_stage S l r of
        Inl e \<Rightarrow> ([SyncPlan], r, Inl e)
      | Inr (plan, unchanged) \<Rightarrow>
          (case sync_tiles S plan l r of
             (r1, Inl e) \<Rightarrow> ([SyncPlan, SyncTiles], r1, Inl e)
           | (r1, Inr (sync_counts, sync_s)) \<Rightarrow>
               (let result = dict_update
                      (result @ [(''sync_duration_s'', Seconds sync_s),
                                 (''tiles_unchanged'', Count unchanged)])
                      sync_counts
                in case upload_status_file S result r1 of
                     (r2, Some e) \<Rightarrow> ([SyncPlan, SyncTiles, StatusFile], r2, Inl e)
                   | (r2, None) \<Rightarrow> ([SyncPlan, SyncTiles, StatusFile], r2, Inr result))))"

record ('l, 'r) run =
  ran :: "stage list"
  local_fs :: 'l
  remote :: 'r
  returned :: "exn + summary"

definition generate ::
  "('l, 'r) stages \<Rightarrow> bool \<Rightarrow> bool \<Rightarrow> 'l \<Rightarrow> 'r \<Rightarrow> ('l, 'r) run" where
  "generate S create upload l r =
     (let l0 = ensure_dir S OutputDir l in
      case (if create then create_phase S l0 else ([], l0, Inr ([], False))) of
        (ran1, l1, Inl e) \<Rightarrow> \<lparr>ran = ran1, local_fs = l1, remote = r, returned = Inl e\<rparr>
      | (ran1, l1, Inr (result, early)) \<Rightarrow>
          if early then \<lparr>ran = ran1, local_fs = l1, remote = r, returned = Inr result\<rparr>
          else if upload then
            (case upload_phase S result l1 r of
               (ran2, r1, res) \<Rightarrow>
                 \<lparr>ran = ran1 @ ran2, local_fs = l1, remote = r1, returned = res\<rparr>)
          else \<lparr>ran = ran1, local_fs = l1, remote = r, returned = Inr result\<rparr>)"

text \<open>
  Stages for a run over an empty database: the export finds no row; every later stage, were
  it to run, would leave its mark on the local directory or on the store.
\<close>

definition idle_stages :: "(string list, string list) stages" where
  "idle_stages =
     \<lparr>ensure_dir = (\<lambda>d l. l), rmtree_if_dir = (\<lambda>d l. l), mkdir = (\<lambda>d l. l),
      export_to_csvs = (\<lambda>l. (l @ [''csv''], Inr ((0, 0), 1 / 10))),
      csv_to_quadtrees = (\<lambda>l. (l @ [''quadtrees''], Inr ((0, 0, 0), 0))),
      merge_stage = (\<lambda>l. (l @ [''shapes''], Inr 0)),
      render_tiles = (\<lambda>l. (l @ [''tiles''], Inr (0, 0))),
      sync_plan_stage = (\<lambda>l r. Inr (\<lparr>to_upload = [], to_update = [], to_delete = r\<rparr>, 0)),
      sync_tiles = (\<lambda>plan l r. ([], Inr ([(''tile_deleted'', Count (length r))], 0))),
      upload_status_file = (\<lambda>result r. (r @ [''data.json''], None))\<rparr>"

section \<open>Properties of the job batch executor\<close>






lemma watch_loop_append:
  "watch_loop cb el t (xs @ ys) st =
     (case watch_loop cb el t xs st of
        (st1, Some e) \<Rightarrow> (st1, Some e)
      | (st1, None) \<Rightarrow> watch_loop cb el t ys st1)"
  by (induction xs arbitrary: st) (auto split: prod.splits option.splits)

text \<open>progress tick\<close>

lemma progress_tick_frame:
  assumes "progress_tick cb el t st = (st1, out)"
  shows "jobs_complete st1 = jobs_complete st"
    and "\<exists>new. events st1 = events st @ new \<and> (\<forall>ev\<in>set new. about ev = None)"
  using assms
  by (auto simp: progress_tick_def Let_def emit_def split: if_splits option.splits prod.splits)

lemma try_get_frame:
  assumes "try_get cb job st = (st1, out)"
  shows "jobs_complete st1 = jobs_complete st"
    and "\<exists>new. events st1 = events st @ new \<and> (\<forall>ev\<in>set new. about ev = Some (jobs_complete st))"
  using assms
  by (auto simp: try_get_def Let_def emit_def split: job.splits option.splits prod.splits)

lemma except_Exception_frame:
  assumes "except_Exception cb e st = (st1, out)"
  shows "jobs_complete st1 = jobs_complete st"
    and "\<exists>new. events st1 = events st @ new \<and> (\<forall>ev\<in>set new. about ev = Some (jobs_complete st))"
  using assms
  by (auto simp: except_Exception_def Let_def emit_def split: if_splits option.splits prod.splits)

lemma await_job_frame:
  assumes "await_job cb job st = (st1, out)"
  shows "jobs_complete st1 = jobs_complete st"
    and "\<exists>new. events st1 = events st @ new \<and> (\<forall>ev\<in>set new. about ev = Some (jobs_complete st))"
proof -
  obtain st2 o2 where t: "try_get cb job st = (st2, o2)" by (cases "try_get cb job st")
  note f = try_get_frame[OF t]
  show "jobs_complete st1 = jobs_complete st"
    using assms t f(1) except_Exception_frame(1)[of cb _ st2 st1 out]
    by (auto simp: await_job_def split: option.splits if_splits)
  show "\<exists>new. events st1 = events st @ new \<and> (\<forall>ev\<in>set new. about ev = Some (jobs_complete st))"
    using assms t f except_Exception_frame(2)[of cb _ st2 st1 out]
    by (fastforce simp: await_job_def split: option.splits if_splits)
qed

lemma watch_loop_frame:
  "watch_loop cb el t jobs st = (st1, out) \<Longrightarrow>
     (\<exists>new. events st1 = events st @ new \<and>
           (\<forall>ev\<in>set new. \<forall>j. about ev = Some j \<longrightarrow>
              jobs_complete st \<le> j \<and> j < jobs_complete st + length jobs)) \<and>
     (out = None \<longrightarrow> jobs_complete st1 = jobs_complete st + length jobs)"
proof (induction jobs arbitrary: st)
  case Nil
  then show ?case by simp
next
  case (Cons job jobs)
  obtain sp op where p: "progress_tick cb el t st = (sp, op)"
    by (cases "progress_tick cb el t st")
  note pf = progress_tick_frame[OF p]
  show ?case
  proof (cases op)
    case (Some e)
    with Cons.prems p pf show ?thesis by auto
  next
    case None
    obtain sa oa where a: "await_job cb job sp = (sa, oa)"
      by (cases "await_job cb job sp")
    note af = await_job_frame[OF a]
    show ?thesis
    proof (cases oa)
      case (Some e)
      with Cons.prems p None a pf af show ?thesis by auto
    next
      case oaN: None
      let ?s = "sa\<lparr>jobs_complete := jobs_complete sa + 1\<rparr>"
      have r: "watch_loop cb el t jobs ?s = (st1, out)"
        using Cons.prems p None a oaN by simp
      from Cons.IH[OF r] obtain new where
        n: "events st1 = events ?s @ new"
           "\<forall>ev\<in>set new. \<forall>j. about ev = Some j \<longrightarrow>
              jobs_complete ?s \<le> j \<and> j < jobs_complete ?s + length jobs"
           "out = None \<longrightarrow> jobs_complete st1 = jobs_complete ?s + length jobs"
        by blast
      from pf obtain n1 where n1: "events sp = events st @ n1" "\<forall>ev\<in>set n1. about ev = None"
        by blast
      from af obtain n2 where n2: "events sa = events sp @ n2"
          "\<forall>ev\<in>set n2. about ev = Some (jobs_complete sp)"
        by blast
      have "events st1 = events st @ (n1 @ n2 @ new)"
        using n(1) n1(1) n2(1) by simp
      moreover have "\<forall>ev\<in>set (n1 @ n2 @ new). \<forall>j. about ev = Some j \<longrightarrow>
              jobs_complete st \<le> j \<and> j < jobs_complete st + length (job # jobs)"
        using n(2) n1(2) n2(2) pf(1) af(1) by auto
      moreover have "out = None \<longrightarrow> jobs_complete st1 = jobs_complete st + length (job # jobs)"
        using n(3) pf(1) af(1) by simp
      ultimately show ?thesis by blast
    qed
  qed
qed

lemma await_interrupt:
  "await_job cb (Raises KeyboardInterrupt) st =
     (emit (Awaited (jobs_complete st)) st, Some KeyboardInterrupt)"
  by (simp add: await_job_def try_get_def Let_def)

text \<open>
  Claim C8. When the job at position \<open>i\<close> is awaited and \<open>job.get()\<close> raises
  \<open>KeyboardInterrupt\<close>, the executor leaves with that interrupt, and awaiting job \<open>i\<close> is
  the last thing it did: everything before concerns earlier jobs or is a progress report. So
  neither \<open>on_error\<close> nor the error-tracking client sees job \<open>i\<close>, and no later job is
  awaited or reported.
\<close>

theorem watch_jobs_interrupt:
  assumes run: "watch_jobs cb el jobs u = (st, out)"
      and i: "i < length jobs" "jobs ! i = Raises KeyboardInterrupt"
      and aw: "Awaited i \<in> set (events st)"
  shows "out = Some KeyboardInterrupt \<and>
         (\<exists>tr. events st = tr @ [Awaited i] \<and>
               (\<forall>ev\<in>set tr. \<forall>j. about ev = Some j \<longrightarrow> j < i)) \<and>
         (\<forall>j e. i \<le> j \<longrightarrow> OnError j e \<notin> set (events st) \<and> Captured j e \<notin> set (events st)) \<and>
         (\<forall>j r. i \<le> j \<longrightarrow> OnSuccess j r \<notin> set (events st)) \<and>
         (\<forall>j. i < j \<longrightarrow> Awaited j \<notin> set (events st))"
proof -
  let ?s0 = "\<lparr>last_elapsed = 0, jobs_complete = 0, reads = 0, user = u, events = []\<rparr>
               :: ('a, 'b) watch_state"
  let ?t = "length jobs"
  have split: "jobs = take i jobs @ Raises KeyboardInterrupt # drop (Suc i) jobs"
    using i by (metis id_take_nth_drop)
  obtain s1 o1 where pre: "watch_loop cb el ?t (take i jobs) ?s0 = (s1, o1)"
    by (cases "watch_loop cb el ?t (take i jobs) ?s0")
  from watch_loop_frame[OF pre] i(1) obtain n1 where
    n1: "events s1 = n1" "\<forall>ev\<in>set n1. \<forall>j. about ev = Some j \<longrightarrow> j < i"
        "o1 = None \<longrightarrow> jobs_complete s1 = i"
    by auto
  have whole: "watch_loop cb el ?t (take i jobs @ Raises KeyboardInterrupt # drop (Suc i) jobs) ?s0
                 = (st, out)"
    using run split by (simp add: watch_jobs_def)
  have main: "out = Some KeyboardInterrupt \<and>
         (\<exists>tr. events st = tr @ [Awaited i] \<and>
               (\<forall>ev\<in>set tr. \<forall>j. about ev = Some j \<longrightarrow> j < i))"
  proof (cases o1)
    case (Some e)
    then have "st = s1" using whole pre by (simp add: watch_loop_append)
    with n1 aw show ?thesis by fastforce
  next
    case None
    obtain sp op where p: "progress_tick cb el ?t s1 = (sp, op)"
      by (cases "progress_tick cb el ?t s1")
    note pf = progress_tick_frame[OF p]
    from pf obtain n2 where n2: "events sp = n1 @ n2" "\<forall>ev\<in>set n2. about ev = None"
      using n1(1) by blast
    show ?thesis
    proof (cases op)
      case (Some e)
      then have "st = sp" using whole pre None p by (simp add: watch_loop_append)
      with n1 n2 aw show ?thesis by fastforce
    next
      case opN: None
      have "st = emit (Awaited (jobs_complete sp)) sp" "out = Some KeyboardInterrupt"
        using whole pre None p opN by (simp_all add: watch_loop_append await_interrupt)
      moreover have "jobs_complete sp = i" using pf(1) n1(3) None by simp
      ultimately show ?thesis using n1(2) n2 by (auto simp: emit_def)
    qed
  qed
  then obtain tr where tr: "events st = tr @ [Awaited i]"
      "\<forall>ev\<in>set tr. \<forall>j. about ev = Some j \<longrightarrow> j < i"
    by blast
  have "\<forall>ev\<in>set (events st). \<forall>j. about ev = Some j \<longrightarrow> j < i \<or> ev = Awaited i"
    using tr by auto
  then have "\<forall>j e. i \<le> j \<longrightarrow> OnError j e \<notin> set (events st) \<and> Captured j e \<notin> set (events st)"
    and "\<forall>j r. i \<le> j \<longrightarrow> OnSuccess j r \<notin> set (events st)"
    and "\<forall>j. i < j \<longrightarrow> Awaited j \<notin> set (events st)"
    by fastforce+
  with main show ?thesis by blast
qed

theorem watch_jobs_interrupt_witness:
  "watch_jobs isolate_callbacks (\<lambda>k. 3 * of_nat k)
      [Returns 1, Raises KeyboardInterrupt, Returns 3] 0
     = (\<lparr>last_elapsed = 0, jobs_complete = 1, reads = 2, user = 1,
         events = [Awaited 0, OnSuccess 0 1, Awaited 1]\<rparr>, Some KeyboardInterrupt)
   \<and> (1::nat) < length [Returns (1::nat), Raises KeyboardInterrupt, Returns 3]
   \<and> [Returns (1::nat), Raises KeyboardInterrupt, Returns 3] ! 1 = Raises KeyboardInterrupt
   \<and> Awaited 1 \<in> set [Awaited 0, OnSuccess 0 (1::nat), Awaited 1]
   \<and> OnError 1 KeyboardInterrupt \<notin> set [Awaited 0, OnSuccess 0 (1::nat), Awaited 1]
   \<and> Captured 1 KeyboardInterrupt \<notin> set [Awaited 0, OnSuccess 0 (1::nat), Awaited 1]
   \<and> Awaited 2 \<notin> set [Awaited 0, OnSuccess 0 (1::nat), Awaited 1]"
proof -
  have run: "watch_jobs isolate_callbacks (\<lambda>k. 3 * of_nat k)
      [Returns 1, Raises KeyboardInterrupt, Returns 3] 0
     = (\<lparr>last_elapsed = 0, jobs_complete = 1, reads = 2, user = 1,
         events = [Awaited 0, OnSuccess 0 1, Awaited 1]\<rparr>, Some KeyboardInterrupt)"
    by (simp add: watch_jobs_def isolate_callbacks_def abort_callbacks_def progress_tick_def
          await_job_def try_get_def emit_def tally_def Let_def)
  from watch_jobs_interrupt[OF run, of 1] show ?thesis using run by simp
qed





















text \<open>A run that never reaches the progress interval needs no callback at all.\<close>

lemma progress_tick_not_due:
  assumes "el (reads st) \<le> last_elapsed st + progress_seconds cb"
  shows "progress_tick cb el t st = (st\<lparr>reads := reads st + 1\<rparr>, None)"
  using assms by (simp add: progress_tick_def Let_def)

lemma watch_loop_quick:
  assumes "on_success cb = None" "\<forall>k. el k \<le> progress_seconds cb"
  shows "0 \<le> last_elapsed st \<Longrightarrow>
         \<exists>st1. watch_loop cb el t (map Returns rs) st = (st1, None)
           \<and> jobs_complete st1 = jobs_complete st + length rs"
proof (induction rs arbitrary: st)
  case Nil
  then show ?case by simp
next
  case (Cons r rs)
  have due: "el (reads st) \<le> last_elapsed st + progress_seconds cb"
    using assms(2) Cons.prems by (metis add_increasing)
  let ?s = "emit (Awaited (jobs_complete st)) (st\<lparr>reads := reads st + 1\<rparr>)"
  have a: "await_job cb (Returns r) (st\<lparr>reads := reads st + 1\<rparr>) = (?s, None)"
    using assms(1) by (simp add: await_job_def try_get_def Let_def)
  have "0 \<le> last_elapsed (?s\<lparr>jobs_complete := jobs_complete ?s + 1\<rparr>)"
    using Cons.prems by (simp add: emit_def)
  from Cons.IH[OF this] show ?case
    using progress_tick_not_due[where el = el and st = st and cb = cb and t = t, OF due] a
    by (auto simp: emit_def)
qed

lemma watch_jobs_without_callbacks_quick:
  assumes "on_success cb = None" "\<forall>k. el k \<le> progress_seconds cb"
  shows "\<exists>st. watch_jobs cb el (map Returns rs) u = (st, None) \<and> jobs_complete st = length rs"
  unfolding watch_jobs_def
  using watch_loop_quick[OF assms, of "\<lparr>last_elapsed = 0, jobs_complete = 0, reads = 0, user = u, events = []\<rparr>" "length (map Returns rs)" rs]
  by simp

text \<open>
  Claim C5. With \<open>on_progress\<close> left at \<open>None\<close>, a run whose clock has passed the
  progress interval at the first check calls \<open>None\<close>: line 278 raises \<open>TypeError\<close> before the
  first job is awaited, although that job would have succeeded.
\<close>

theorem watch_jobs_without_progress_raises:
  "watch_jobs no_callbacks (\<lambda>k. 6) [Returns (1::nat)] () =
    (\<lparr>last_elapsed = 0, jobs_complete = 0, reads = 1, user = (), events = []\<rparr>, Some TypeError)"
  by (simp add: watch_jobs_def no_callbacks_def progress_tick_def Let_def)

section \<open>Properties of the sync plan\<close>

lemma sync_step_result:
  assumes "(obj_name_of td png \<in> remaining_objects st) = (obj_name_of td png \<in> fst ` set objects)"
  shows "sync_step digest td objects png st =
     Inr \<lparr>actions_upload = actions_upload st @ (if classify digest td objects png = Upload then [obj_name_of td png] else []),
          actions_update = actions_update st @ (if classify digest td objects png = Update then [obj_name_of td png] else []),
          unchanged_count = unchanged_count st + (if classify digest td objects png = Unchanged then 1 else 0),
          remaining_objects = remaining_objects st - {obj_name_of td png},
          hashed = hashed st @ (if same_size td objects png then [path png] else [])\<rparr>"
proof (cases "map_of objects (obj_name_of td png)")
  case None
  then have "obj_name_of td png \<notin> fst ` set objects"
    by (simp add: map_of_eq_None_iff)
  with assms None show ?thesis
    by (simp add: sync_step_def classify_def same_size_def)
next
  case (Some v)
  then have "obj_name_of td png \<in> fst ` set objects"
    by (metis map_of_eq_None_iff option.distinct(1))
  with assms Some show ?thesis
    by (cases v) (simp add: sync_step_def classify_def same_size_def Let_def)
qed

lemma sync_loop_result:
  assumes "distinct (map (obj_name_of td) pngs)"
      and "\<forall>p\<in>set pngs. (obj_name_of td p \<in> remaining_objects st) = (obj_name_of td p \<in> fst ` set objects)"
  shows "sync_loop digest td objects pngs st =
     Inr \<lparr>actions_upload = actions_upload st @ map (obj_name_of td) (filter (\<lambda>p. classify digest td objects p = Upload) pngs),
          actions_update = actions_update st @ map (obj_name_of td) (filter (\<lambda>p. classify digest td objects p = Update) pngs),
          unchanged_count = unchanged_count st + length (filter (\<lambda>p. classify digest td objects p = Unchanged) pngs),
          remaining_objects = remaining_objects st - set (map (obj_name_of td) pngs),
          hashed = hashed st @ map path (filter (same_size td objects) pngs)\<rparr>"
  using assms
proof (induction pngs arbitrary: st)
  case Nil
  then show ?case by simp
next
  case (Cons png pngs)
  let ?st1 = "\<lparr>actions_upload = actions_upload st @ (if classify digest td objects png = Upload then [obj_name_of td png] else []),
          actions_update = actions_update st @ (if classify digest td objects png = Update then [obj_name_of td png] else []),
          unchanged_count = unchanged_count st + (if classify digest td objects png = Unchanged then 1 else 0),
          remaining_objects = remaining_objects st - {obj_name_of td png},
          hashed = hashed st @ (if same_size td objects png then [path png] else [])\<rparr>"
  have step: "sync_step digest td objects png st = Inr ?st1"
    using Cons.prems(2) by (intro sync_step_result) simp
  have d: "distinct (map (obj_name_of td) pngs)" using Cons.prems(1) by simp
  have r: "\<forall>p\<in>set pngs. (obj_name_of td p \<in> remaining_objects ?st1) = (obj_name_of td p \<in> fst ` set objects)"
  proof
    fix p assume p: "p \<in> set pngs"
    have "obj_name_of td png \<notin> obj_name_of td ` set pngs" using Cons.prems(1) by simp
    with p have "obj_name_of td p \<noteq> obj_name_of td png" by (metis imageI)
    moreover have "(obj_name_of td p \<in> remaining_objects st) = (obj_name_of td p \<in> fst ` set objects)"
      using Cons.prems(2) p by simp
    ultimately show "(obj_name_of td p \<in> remaining_objects ?st1) = (obj_name_of td p \<in> fst ` set objects)"
      by simp
  qed
  have "sync_loop digest td objects (png # pngs) st = sync_loop digest td objects pngs ?st1"
    by (simp add: step)
  also note Cons.IH[OF d r]
  also have "remaining_objects ?st1 - set (map (obj_name_of td) pngs)
               = remaining_objects st - set (map (obj_name_of td) (png # pngs))"
    by auto
  finally show ?case
    by (cases "classify digest td objects png"; cases "same_size td objects png") simp_all
qed

lemma get_sync_actions_result:
  assumes "distinct (map (obj_name_of td) pngs)"
  shows "get_sync_actions digest td objects pngs =
     Inr (\<lparr>to_upload = map (obj_name_of td) (filter (\<lambda>p. classify digest td objects p = Upload) pngs),
           to_update = map (obj_name_of td) (filter (\<lambda>p. classify digest td objects p = Update) pngs),
           to_delete = sorted_list_of_set (set (map fst objects) - set (map (obj_name_of td) pngs))\<rparr>,
          length (filter (\<lambda>p. classify digest td objects p = Unchanged) pngs),
          map path (filter (same_size td objects) pngs))"
  unfolding get_sync_actions_def
  by (subst sync_loop_result[OF assms]) simp_all

lemma map_of_synced:
  assumes "distinct (map (obj_name_of td) pngs)" "p \<in> set pngs"
  shows "map_of (synced_inventory digest td pngs) (obj_name_of td p) = Some (st_size p, digest (content p))"
proof -
  have "distinct (map fst (synced_inventory digest td pngs))"
    using assms(1) by (simp add: synced_inventory_def comp_def)
  moreover have "(obj_name_of td p, st_size p, digest (content p)) \<in> set (synced_inventory digest td pngs)"
    using assms(2) by (auto simp: synced_inventory_def)
  ultimately show ?thesis by (rule map_of_is_SomeI)
qed

text \<open>
  Claim C3. Idempotence of the plan: when the remote inventory holds exactly the local
  files, each with its size and the digest of its content, the plan has nothing to upload,
  update or delete, and every local file counts as unchanged.
\<close>

theorem sync_idempotent:
  assumes d: "distinct (map (obj_name_of td) pngs)"
      and keys: "set (map fst objects) = set (map (obj_name_of td) pngs)"
      and same: "\<forall>p\<in>set pngs. map_of objects (obj_name_of td p) = Some (st_size p, digest (content p))"
  shows "get_sync_actions digest td objects pngs =
           Inr (\<lparr>to_upload = [], to_update = [], to_delete = []\<rparr>, length pngs, map path pngs)
         \<and> (\<forall>p\<in>set pngs. classify digest td objects p = Unchanged)"
proof -
  have c: "\<forall>p\<in>set pngs. classify digest td objects p = Unchanged"
    using same by (simp add: classify_def)
  have s: "\<forall>p\<in>set pngs. same_size td objects p"
    using same by (simp add: same_size_def)
  have f1: "filter (\<lambda>p. classify digest td objects p = Upload) pngs = []"
           "filter (\<lambda>p. classify digest td objects p = Update) pngs = []"
    using c by (simp_all add: filter_empty_conv)
  have f2: "filter (\<lambda>p. classify digest td objects p = Unchanged) pngs = pngs"
           "filter (same_size td objects) pngs = pngs"
    using c s by (simp_all add: filter_id_conv)
  show ?thesis
    unfolding get_sync_actions_result[OF d] f1 f2 using keys c by simp
qed

lemma example_plan:
  assumes "digest cA = ''h1''"
  shows "get_sync_actions digest ''tiles'' [(''A'', 10, ''h1''), (''B'', 20, ''h2'')]
           [\<lparr>path = ''tiles/A'', st_size = 10, content = cA\<rparr>,
            \<lparr>path = ''tiles/C'', st_size = 5, content = cC\<rparr>]
         = Inr (\<lparr>to_upload = [''C''], to_update = [], to_delete = [''B'']\<rparr>, 1, [''tiles/A''])"
  using assms
  by (simp add: get_sync_actions_def sync_step_def obj_name_of_def Let_def)

text \<open>
  Claim C2. For every remote inventory and every set of local files (their object names
  distinct), the plan uploads the files classified Upload (absent from the inventory),
  updates those classified Update (another size, or the same size and another digest), counts
  those classified Unchanged, all in the order of the walk, and deletes, in sorted order and
  once each, exactly the remote keys that are no local file's name. For the remote inventory
  \<open>A:(10, h1)\<close>, \<open>B:(20, h2)\<close> and local files \<open>A\<close> of size 10 and digest \<open>h1\<close> and \<open>C\<close> of
  size 5 the plan is upload \<open>C\<close>, update nothing, delete \<open>B\<close>, one unchanged.
\<close>

theorem sync_plan_classification:
  assumes "distinct (map (obj_name_of td) pngs)"
  shows "(\<exists>plan n reads. get_sync_actions digest td objects pngs = Inr (plan, n, reads)
      \<and> to_upload plan = map (obj_name_of td) (filter (\<lambda>p. classify digest td objects p = Upload) pngs)
      \<and> to_update plan = map (obj_name_of td) (filter (\<lambda>p. classify digest td objects p = Update) pngs)
      \<and> n = length (filter (\<lambda>p. classify digest td objects p = Unchanged) pngs)
      \<and> sorted (to_delete plan) \<and> distinct (to_delete plan)
      \<and> set (to_delete plan) = set (map fst objects) - set (map (obj_name_of td) pngs))
    \<and> (digest cA = ''h1'' \<longrightarrow>
         get_sync_actions digest ''tiles'' [(''A'', 10, ''h1''), (''B'', 20, ''h2'')]
           [\<lparr>path = ''tiles/A'', st_size = 10, content = cA\<rparr>,
            \<lparr>path = ''tiles/C'', st_size = 5, content = cC\<rparr>]
         = Inr (\<lparr>to_upload = [''C''], to_update = [], to_delete = [''B'']\<rparr>, 1, [''tiles/A'']))"
  using get_sync_actions_result[OF assms, of digest objects] example_plan[of digest cA cC]
  by simp

theorem sync_plan_classification_witness:
  "distinct (map (obj_name_of ''tiles'') local_AC)
   \<and> two_hashes ''aaaaaaaaaa'' = ''h1''
   \<and> map (classify two_hashes ''tiles'' remote_AB) local_AC = [Unchanged, Upload]
   \<and> get_sync_actions two_hashes ''tiles'' remote_AB local_AC
        = Inr (\<lparr>to_upload = [''C''], to_update = [], to_delete = [''B'']\<rparr>, 1, [''tiles/A''])"
  using sync_plan_classification[where td = "''tiles''" and pngs = local_AC and digest = two_hashes
          and objects = remote_AB and cA = "''aaaaaaaaaa''" and cC = "''ccccc''"]
  by (simp add: local_AC_def remote_AB_def two_hashes_def obj_name_of_def classify_def)

theorem sync_idempotent_witness:
  "distinct (map (obj_name_of ''tiles'') local_AC)
   \<and> synced_inventory two_hashes ''tiles'' local_AC = [(''A'', 10, ''h1''), (''C'', 5, ''h3'')]
   \<and> get_sync_actions two_hashes ''tiles'' (synced_inventory two_hashes ''tiles'' local_AC) local_AC
        = Inr (\<lparr>to_upload = [], to_update = [], to_delete = []\<rparr>, 2, [''tiles/A'', ''tiles/C''])"
proof -
  have d: "distinct (map (obj_name_of ''tiles'') local_AC)"
    by (simp add: local_AC_def obj_name_of_def)
  have k: "set (map fst (synced_inventory two_hashes ''tiles'' local_AC))
             = set (map (obj_name_of ''tiles'') local_AC)"
    by (simp add: synced_inventory_def comp_def)
  have s: "\<forall>p\<in>set local_AC. map_of (synced_inventory two_hashes ''tiles'' local_AC)
              (obj_name_of ''tiles'' p) = Some (st_size p, two_hashes (content p))"
    using map_of_synced[OF d] by blast
  have inv: "synced_inventory two_hashes ''tiles'' local_AC = [(''A'', 10, ''h1''), (''C'', 5, ''h3'')]"
    by (simp add: local_AC_def synced_inventory_def obj_name_of_def two_hashes_def)
  have l: "length local_AC = 2" "map path local_AC = [''tiles/A'', ''tiles/C'']"
    by (simp_all add: local_AC_def)
  from sync_idempotent[OF d k s] have
    "get_sync_actions two_hashes ''tiles'' (synced_inventory two_hashes ''tiles'' local_AC) local_AC
        = Inr (\<lparr>to_upload = [], to_update = [], to_delete = []\<rparr>, length local_AC, map path local_AC)"
    by blast
  then show ?thesis using d inv l by simp
qed

lemma obj_name_of_content [simp]:
  "obj_name_of td (f\<lparr>content := c\<rparr>) = obj_name_of td f"
  by (simp add: obj_name_of_def)

lemma same_path_same_name:
  "path p = path q \<Longrightarrow> obj_name_of td p = obj_name_of td q"
  by (simp add: obj_name_of_def)

text \<open>
  Claim C7. A local file whose size differs from that of its remote entry is classified
  Update whatever its content: replacing its bytes by any others leaves the whole result
  the same, the file's name is among the updates, and the file is never opened for hashing.
\<close>

theorem size_first_short_circuit:
  assumes d: "distinct (map (obj_name_of td) (pre @ f # post))"
      and r: "map_of objects (obj_name_of td f) = Some (obj_size, obj_digest)"
      and sz: "st_size f \<noteq> obj_size"
  shows "classify digest td objects f = Update
       \<and> classify digest td objects (f\<lparr>content := c\<rparr>) = Update
       \<and> get_sync_actions digest td objects (pre @ f\<lparr>content := c\<rparr> # post)
           = get_sync_actions digest td objects (pre @ f # post)
       \<and> (\<exists>plan n reads. get_sync_actions digest td objects (pre @ f # post) = Inr (plan, n, reads)
             \<and> obj_name_of td f \<in> set (to_update plan) \<and> path f \<notin> set reads)"
proof -
  let ?f' = "f\<lparr>content := c\<rparr>"
  have c: "classify digest td objects f = Update" "classify digest td objects ?f' = Update"
    using r sz by (simp_all add: classify_def)
  have s: "\<not> same_size td objects f" "\<not> same_size td objects ?f'"
    using r sz by (simp_all add: same_size_def)
  have d': "distinct (map (obj_name_of td) (pre @ ?f' # post))"
    using d by simp
  have eq: "get_sync_actions digest td objects (pre @ ?f' # post)
           = get_sync_actions digest td objects (pre @ f # post)"
    unfolding get_sync_actions_result[OF d] get_sync_actions_result[OF d']
    using c s by simp
  have np: "path f \<notin> path ` (set pre \<union> set post)"
  proof
    assume "path f \<in> path ` (set pre \<union> set post)"
    then obtain p where p: "p \<in> set pre \<union> set post" and pp: "path p = path f"
      by (metis imageE)
    from pp have "obj_name_of td p = obj_name_of td f" by (rule same_path_same_name)
    moreover have "obj_name_of td f \<notin> obj_name_of td ` (set pre \<union> set post)"
      using d by auto
    ultimately show False using p by (metis imageI)
  qed
  have "set (map path (filter (same_size td objects) (pre @ f # post)))
          \<subseteq> path ` (set pre \<union> set post)"
    using s(1) by auto
  with np have nr: "path f \<notin> set (map path (filter (same_size td objects) (pre @ f # post)))"
    by blast
  have up: "obj_name_of td f \<in> set (map (obj_name_of td)
              (filter (\<lambda>p. classify digest td objects p = Update) (pre @ f # post)))"
    using c(1) by simp
  show ?thesis
    using c eq nr up unfolding get_sync_actions_result[OF d] by simp
qed

theorem size_first_short_circuit_witness:
  "distinct (map (obj_name_of ''tiles'') local_A_resized)
   \<and> map_of remote_AB ''A'' = Some (10, ''h1'')
   \<and> get_sync_actions two_hashes ''tiles'' remote_AB local_A_resized
        = Inr (\<lparr>to_upload = [''C''], to_update = [''A''], to_delete = [''B'']\<rparr>, 0, [])
   \<and> get_sync_actions two_hashes ''tiles'' remote_AB
        [\<lparr>path = ''tiles/A'', st_size = 12, content = ''bbbbbbbbbbbb''\<rparr>,
         \<lparr>path = ''tiles/C'', st_size = 5, content = ''ccccc''\<rparr>]
        = get_sync_actions two_hashes ''tiles'' remote_AB local_A_resized"
proof -
  have d: "distinct (map (obj_name_of ''tiles'') ([] @ \<lparr>path = ''tiles/A'', st_size = 12,
              content = ''aaaaaaaaaaaa''\<rparr> # [\<lparr>path = ''tiles/C'', st_size = 5, content = ''ccccc''\<rparr>]))"
    by (simp add: obj_name_of_def)
  have r: "map_of remote_AB (obj_name_of ''tiles'' \<lparr>path = ''tiles/A'', st_size = 12,
              content = ''aaaaaaaaaaaa''\<rparr>) = Some (10, ''h1'')"
    by (simp add: remote_AB_def obj_name_of_def)
  have sz: "st_size \<lparr>path = ''tiles/A'', st_size = 12, content = ''aaaaaaaaaaaa''\<rparr> \<noteq> 10"
    by simp
  from size_first_short_circuit[OF d r sz, of two_hashes "''bbbbbbbbbbbb''"]
  show ?thesis
    using d by (simp add: local_A_resized_def remote_AB_def obj_name_of_def
        get_sync_actions_def sync_step_def Let_def)
qed

section \<open>Properties of the shard export\<close>

lemma export_page_eq:
  "export_page limit n \<lparr>result_rows = r, file_count = c, file_rows = f, filename = nm, dir = d\<rparr> =
     (if limit \<le> r + n
      then \<lparr>result_rows = r + n, file_count = c + 1, file_rows = 0, filename = Numbered (c + 1),
            dir = open_w (Numbered (c + 1)) (writelines nm n d)\<rparr>
      else \<lparr>result_rows = r + n, file_count = c, file_rows = f + n, filename = nm,
            dir = writelines nm n d\<rparr>)"
  by (simp add: export_page_def Let_def)

lemma export_finish_eq:
  "export_finish \<lparr>result_rows = r, file_count = c, file_rows = f, filename = nm, dir = d\<rparr> =
     (if f = 0
      then (if c - 1 > 1
            then \<lparr>result_rows = r, file_count = c - 1, file_rows = f, filename = Numbered 1,
                  dir = os_rename Orig (Numbered 1) (os_remove nm d)\<rparr>
            else \<lparr>result_rows = r, file_count = c - 1, file_rows = f, filename = nm,
                  dir = os_remove nm d\<rparr>)
      else (if c > 1
            then \<lparr>result_rows = r, file_count = c, file_rows = f, filename = Numbered 1,
                  dir = os_rename Orig (Numbered 1) d\<rparr>
            else \<lparr>result_rows = r, file_count = c, file_rows = f, filename = nm, dir = d\<rparr>))"
  by (simp add: export_finish_def Let_def)

lemma export_to_csv_eq:
  "export_to_csv None pages d =
     (case export_finish (export_pages 10000000 pages
        \<lparr>result_rows = 0, file_count = 1, file_rows = 0, filename = Orig, dir = open_w Orig d\<rparr>) of
        st \<Rightarrow> (result_rows st, file_count st, dir st))"
  by (simp add: export_to_csv_def Let_def)

lemmas fs_defs = open_w_def writelines_def os_remove_def os_rename_def

lemma replicate_25: "replicate 25 x = [x, x, x, x, x, x, x, x, x, x, x, x, x, x, x, x, x, x, x, x,
   x, x, x, x, x]"
  by (simp add: numeral_eq_Suc)

lemma replicate_10: "replicate 10 x = [x, x, x, x, x, x, x, x, x, x]"
  by (simp add: numeral_eq_Suc)

lemmas export_eval = export_to_csv_eq export_page_eq export_finish_eq fs_defs
  pages_25M_def pages_10M_def replicate_25 replicate_10

lemma export_page_rotates_again:
  assumes "file_limit \<le> result_rows st"
  shows "file_count (export_page file_limit n st) = file_count st + 1"
    and "file_rows (export_page file_limit n st) = 0"
    and "filename (export_page file_limit n st) = Numbered (file_count st + 1)"
  using assms by (simp_all add: export_page_def Let_def)

text \<open>
  Claim C1. The rotation test of line 564 compares \<open>result_rows\<close>, the rows of the whole
  export, with the limit, not \<open>file_rows\<close>, the rows of the current file: once the export
  has passed the limit, every page closes a file. Exported with the default limit of
  10,000,000 into an empty directory, 25 pages of 1,000,000 lines each leave 16 files,
  the first with 10,000,000 lines and fifteen with 1,000,000, where three are expected.
\<close>

theorem export_25M_rotates_every_page:
  "export_to_csv None pages_25M [] = (25000000, 16,
  [(Numbered 2, 1000000), (Numbered 3, 1000000), (Numbered 4, 1000000),
   (Numbered 5, 1000000), (Numbered 6, 1000000), (Numbered 7, 1000000),
   (Numbered 8, 1000000), (Numbered 9, 1000000), (Numbered 10, 1000000),
   (Numbered 11, 1000000), (Numbered 12, 1000000), (Numbered 13, 1000000),
   (Numbered 14, 1000000), (Numbered 15, 1000000), (Numbered 16, 1000000),
   (Numbered 1, 10000000)])"
  by (simp add: export_eval)

lemma export_10M_single_file:
  "export_to_csv None pages_10M [] = (10000000, 1, [(Orig, 10000000)])"
  by (simp add: export_eval)

lemma export_10M_then_empty_page:
  "export_to_csv None (pages_10M @ [0]) [] = (10000000, 2, [(Numbered 2, 0), (Numbered 1, 10000000)])"
  by (simp add: export_eval)

lemma export_three_big_pages:
  "export_to_csv None [10000000, 10000000, 5000000] []
     = (25000000, 3, [(Numbered 2, 10000000), (Numbered 3, 5000000), (Numbered 1, 10000000)])"
  by (simp add: export_eval)

section \<open>Properties of the merges\<close>

lemma merge_quadtrees_cmd:
  assumes "glob_glob fs quadtree_dir pattern \<noteq> []"
  shows "merge_quadtrees fs quadtree_dir shapes_dir False pattern
           = Inr (''merge'' # ''-o'' # shapes_dir # glob_glob fs quadtree_dir pattern)"
    and "merge_quadtrees fs quadtree_dir shapes_dir True pattern
           = Inr (''merge'' # ''-u'' # ''-o'' # shapes_dir # glob_glob fs quadtree_dir pattern)"
  using assms by (simp_all add: merge_quadtrees_def Let_def)

lemma merge_tool_keep:
  "merge_tool fs (''merge'' # ''-o'' # out # inputs) = Some (out, concat (map (read_quadtree fs) inputs))"
  by simp

lemma merge_tool_unique:
  "merge_tool fs (''merge'' # ''-u'' # ''-o'' # out # inputs)
     = Some (out, remdups (concat (map (read_quadtree fs) inputs)))"
  by simp

lemma count_list_concat:
  "count_list (concat xss) x = sum_list (map (\<lambda>xs. count_list xs x) xss)"
  by (induction xss) simp_all

lemma count_list_remdups:
  "count_list (remdups xs) x = (if x \<in> set xs then 1 else 0)"
proof (induction xs)
  case Nil
  then show ?case by simp
next
  case (Cons a xs)
  then show ?case by (auto simp: count_list_0_iff)
qed

text \<open>
  Claim C6. The merge queued for a shard with intermediate quadtrees runs the tool without
  \<open>-u\<close>: its output holds every point as often as the segments together do, so a point
  that two segments share is there twice. The global merge runs the tool with \<open>-u\<close>: its
  output holds each point of any shard artifact exactly once, and no other.
\<close>

theorem merge_duplicate_policy:
  assumes inter: "glob_glob fs (path_join quadtree_dir (''submap_'' @ shard)) ''submap*'' = segments"
                 "segments \<noteq> []"
      and shards: "glob_glob fs' quadtree_dir ''map*'' = artifacts" "artifacts \<noteq> []"
  shows "merge_intermediate fs quadtree_dir shard
           = Inr (''merge'' # ''-o'' # path_join quadtree_dir (''map_'' @ shard) # segments)
       \<and> (\<exists>points. merge_tool fs (''merge'' # ''-o'' # path_join quadtree_dir (''map_'' @ shard) # segments)
                       = Some (path_join quadtree_dir (''map_'' @ shard), points)
             \<and> (\<forall>p. count_list points p
                       = sum_list (map (\<lambda>f. count_list (read_quadtree fs f) p) segments)))
       \<and> merge_global fs' quadtree_dir shapes_dir
           = Inr (''merge'' # ''-u'' # ''-o'' # shapes_dir # artifacts)
       \<and> (\<exists>points. merge_tool fs' (''merge'' # ''-u'' # ''-o'' # shapes_dir # artifacts)
                       = Some (shapes_dir, points)
             \<and> distinct points
             \<and> (\<forall>p. count_list points p
                       = (if \<exists>f\<in>set artifacts. p \<in> set (read_quadtree fs' f) then 1 else 0)))"
proof -
  have 1: "merge_intermediate fs quadtree_dir shard
           = Inr (''merge'' # ''-o'' # path_join quadtree_dir (''map_'' @ shard) # segments)"
    unfolding merge_intermediate_def Let_def
    using merge_quadtrees_cmd(1)[of fs "path_join quadtree_dir (''submap_'' @ shard)" "''submap*''"]
      inter by simp
  have 2: "\<forall>p. count_list (concat (map (read_quadtree fs) segments)) p
                       = sum_list (map (\<lambda>f. count_list (read_quadtree fs f) p) segments)"
    by (simp add: count_list_concat comp_def)
  have 3: "merge_global fs' quadtree_dir shapes_dir
           = Inr (''merge'' # ''-u'' # ''-o'' # shapes_dir # artifacts)"
    unfolding merge_global_def
    using merge_quadtrees_cmd(2)[of fs' quadtree_dir "''map*''"] shards by simp
  have 4: "\<forall>p. count_list (remdups (concat (map (read_quadtree fs') artifacts))) p
                       = (if \<exists>f\<in>set artifacts. p \<in> set (read_quadtree fs' f) then 1 else 0)"
    by (simp add: count_list_remdups)
  show ?thesis
    unfolding merge_tool_keep merge_tool_unique using 1 2 3 4 by simp
qed

theorem merge_duplicate_policy_witness:
  "glob_glob two_shards (path_join ''qt'' (''submap_'' @ ''ne'')) ''submap*''
      = [''qt/submap_ne/submap_ne_0001'', ''qt/submap_ne/submap_ne_0002'']
   \<and> merge_intermediate two_shards ''qt'' ''ne''
      = Inr [''merge'', ''-o'', ''qt/map_ne'', ''qt/submap_ne/submap_ne_0001'',
             ''qt/submap_ne/submap_ne_0002'']
   \<and> run_merge two_shards (merge_intermediate two_shards ''qt'' ''ne'')
      = Some (two_shards @ [(''qt/map_ne'', [''p'', ''p'', ''q''])])
   \<and> glob_glob (two_shards @ [(''qt/map_ne'', [''p'', ''p'', ''q''])]) ''qt'' ''map*''
      = [''qt/map_sw'', ''qt/map_ne'']
   \<and> merge_global (two_shards @ [(''qt/map_ne'', [''p'', ''p'', ''q''])]) ''qt'' ''shapes''
      = Inr [''merge'', ''-u'', ''-o'', ''shapes'', ''qt/map_sw'', ''qt/map_ne'']
   \<and> run_merge (two_shards @ [(''qt/map_ne'', [''p'', ''p'', ''q''])])
        (merge_global (two_shards @ [(''qt/map_ne'', [''p'', ''p'', ''q''])]) ''qt'' ''shapes'')
      = Some (two_shards @ [(''qt/map_ne'', [''p'', ''p'', ''q'']), (''shapes'', [''r'', ''p'', ''q''])])"
proof -
  have g1: "glob_glob two_shards (path_join ''qt'' (''submap_'' @ ''ne'')) ''submap*''
      = [''qt/submap_ne/submap_ne_0001'', ''qt/submap_ne/submap_ne_0002'']"
    by (simp add: glob_glob_def path_join_def two_shards_def)
  have g2: "glob_glob (two_shards @ [(''qt/map_ne'', [''p'', ''p'', ''q''])]) ''qt'' ''map*''
      = [''qt/map_sw'', ''qt/map_ne'']"
    by (simp add: glob_glob_def path_join_def two_shards_def)
  from merge_duplicate_policy[OF g1 _ g2, of "''shapes''"]
  have m: "merge_intermediate two_shards ''qt'' ''ne''
             = Inr (''merge'' # ''-o'' # path_join ''qt'' (''map_'' @ ''ne'') #
                  [''qt/submap_ne/submap_ne_0001'', ''qt/submap_ne/submap_ne_0002''])"
          "merge_global (two_shards @ [(''qt/map_ne'', [''p'', ''p'', ''q''])]) ''qt'' ''shapes''
             = Inr (''merge'' # ''-u'' # ''-o'' # ''shapes'' # [''qt/map_sw'', ''qt/map_ne''])"
    by simp_all
  show ?thesis
    unfolding m g1 g2
    by (simp add: run_merge_def read_quadtree_def path_join_def two_shards_def)
qed

section \<open>Properties of the orchestrator\<close>

lemma generate_plan_raises:
  assumes "sync_plan_stage S (ensure_dir S OutputDir l) r = Inl e"
  shows "generate S False True l r =
           \<lparr>ran = [SyncPlan], local_fs = ensure_dir S OutputDir l, remote = r, returned = Inl e\<rparr>"
  using assms by (simp add: generate_def upload_phase_def)

text \<open>
  Claim C10. When the create phase exports no row, \<open>generate\<close> returns after the export
  stage, whether or not an upload was asked for: no other stage has run, the remote store
  is as it was, and the summary holds the three export entries only.
\<close>

theorem generate_no_rows_returns_early:
  assumes "export_to_csvs S (ensure_dir S CsvDir (ensure_dir S OutputDir l))
             = (l1, Inr ((0, csv_count), export_s))"
  shows "generate S True upload l r =
           \<lparr>ran = [Export], local_fs = l1, remote = r,
            returned = Inr [(''export_duration_s'', Seconds export_s),
                           (''row_count'', Count 0),
                           (''csv_count'', Count csv_count)]\<rparr>"
  using assms by (simp add: generate_def create_phase_def)

theorem generate_no_rows_returns_early_witness:
  "export_to_csvs idle_stages (ensure_dir idle_stages CsvDir (ensure_dir idle_stages OutputDir []))
      = ([''csv''], Inr ((0, 0), 1 / 10))
   \<and> generate idle_stages True True [] [''old.png''] =
        \<lparr>ran = [Export], local_fs = [''csv''], remote = [''old.png''],
         returned = Inr [(''export_duration_s'', Seconds (1 / 10)),
                        (''row_count'', Count 0),
                        (''csv_count'', Count 0)]\<rparr>
   \<and> generate idle_stages False True [] [''old.png''] =
        \<lparr>ran = [SyncPlan, SyncTiles, StatusFile], local_fs = [], remote = [''data.json''],
         returned = Inr [(''sync_duration_s'', Seconds 0), (''tiles_unchanged'', Count 0),
                        (''tile_deleted'', Count 1)]\<rparr>"
  using generate_no_rows_returns_early[of idle_stages "[]" "[''csv'']" 0 "1 / 10" True "[''old.png'']"]
  by (simp add: idle_stages_def generate_def upload_phase_def dict_update_def)

section \<open>Properties of the inventory fetch\<close>

lemma fetch_no_contents:
  "Contents (lister next_kwargs) = None \<Longrightarrow>
     fetch_objects lister bucket_prefix objects next_kwargs = Some (Inl (KeyError ''Contents''))"
  by (subst fetch_objects.simps) simp

lemma two_pages_inventory:
  "get_current_objects two_pages ''tiles/'' =
     Some (Inr [(''0/0/0.png'', 10, ''h1''), (''1/0/0.png'', 20, ''h2'')])"
  unfolding get_current_objects_def
  apply (subst fetch_objects.simps)
  apply (simp add: two_pages_def add_object_def endswith_def strip_quotes_def Let_def)
  apply (subst fetch_objects.simps)
  apply (simp add: two_pages_def add_object_def endswith_def strip_quotes_def Let_def)
  done

text \<open>
  Claim C9. When the first page of the listing has no \<open>Contents\<close>, as for a prefix under
  which the store holds nothing, fetching the inventory raises \<open>KeyError\<close> where an empty
  inventory would be the answer; \<open>get_sync_plan\<close> raises with it, before any action is
  planned, and an upload-only \<open>generate\<close> whose plan stage raises so ends there with the
  store untouched. The same holds at whichever page of the listing has no \<open>Contents\<close>.
\<close>

theorem empty_listing_raises:
  assumes "Contents (lister None) = None"
  shows "get_current_objects lister bucket_prefix = Some (Inl (KeyError ''Contents''))
       \<and> get_current_objects lister bucket_prefix \<noteq> Some (Inr [])
       \<and> get_sync_plan lister digest tiles_dir bucket_prefix pngs
            = Some (Inl (KeyError ''Contents''))
       \<and> (\<forall>objects token. Contents (lister token) = None \<longrightarrow>
             fetch_objects lister bucket_prefix objects token
               = Some (Inl (KeyError ''Contents'')))
       \<and> (\<forall>S l r. sync_plan_stage S (ensure_dir S OutputDir l) r = Inl (KeyError ''Contents'') \<longrightarrow>
             generate S False True l (r :: 'r) =
               \<lparr>ran = [SyncPlan], local_fs = ensure_dir S OutputDir (l :: 'l), remote = r,
                returned = Inl (KeyError ''Contents'')\<rparr>)"
  using assms
  by (simp add: get_current_objects_def get_sync_plan_def fetch_no_contents generate_plan_raises)

theorem empty_listing_raises_witness:
  "Contents (empty_listing None) = None
   \<and> get_current_objects empty_listing ''tiles/'' = Some (Inl (KeyError ''Contents''))
   \<and> get_sync_plan empty_listing two_hashes ''tiles'' ''tiles/'' local_AC
        = Some (Inl (KeyError ''Contents''))
   \<and> generate (idle_stages\<lparr>sync_plan_stage := (\<lambda>l r. Inl (KeyError ''Contents''))\<rparr>)
         False True [] [''old.png'']
        = \<lparr>ran = [SyncPlan], local_fs = [], remote = [''old.png''],
           returned = Inl (KeyError ''Contents'')\<rparr>"
proof -
  have e: "Contents (empty_listing None) = None"
    by (simp add: empty_listing_def)
  note inst = empty_listing_raises[where lister = empty_listing and bucket_prefix = "''tiles/''"
      and digest = two_hashes and tiles_dir = "''tiles''" and pngs = local_AC
      and ?'l = "string list" and ?'r = "string list", OF e]
  from inst have 1: "get_current_objects empty_listing ''tiles/'' = Some (Inl (KeyError ''Contents''))"
    and 2: "get_sync_plan empty_listing two_hashes ''tiles'' ''tiles/'' local_AC
        = Some (Inl (KeyError ''Contents''))"
    and 3: "\<forall>S l r. sync_plan_stage S (ensure_dir S OutputDir l) r = Inl (KeyError ''Contents'') \<longrightarrow>
             generate S False True l (r :: string list) =
               \<lparr>ran = [SyncPlan], local_fs = ensure_dir S OutputDir (l :: string list), remote = r,
                returned = Inl (KeyError ''Contents'')\<rparr>"
    by blast+
  have 4: "generate (idle_stages\<lparr>sync_plan_stage := (\<lambda>l r. Inl (KeyError ''Contents''))\<rparr>)
         False True [] [''old.png'']
        = \<lparr>ran = [SyncPlan], local_fs = [], remote = [''old.png''],
           returned = Inl (KeyError ''Contents'')\<rparr>"
    using 3[rule_format, of "idle_stages\<lparr>sync_plan_stage := (\<lambda>l r. Inl (KeyError ''Contents''))\<rparr>"
              "[]" "[''old.png'']"]
    by (simp add: idle_stages_def)
  show ?thesis using e 1 2 4 by blast
qed

end
